theory Spec2Isabelle
  imports Complex_Main
begin

section \<open>LiveDataCollector: five-minute candle aggregation\<close>

text \<open>
  Embedding of \<^verbatim>\<open>src/live_data_collector.py\<close>. Python floats are idealised as
  \<^typ>\<open>real\<close> (no NaN, no rounding of sums); aware datetimes are integers counting
  microseconds, so that a \<^verbatim>\<open>timedelta\<close> is an exact integer difference. The
  wall clock is an input of every call and is not assumed to be monotonic.
\<close>

type_synonym time = int

record quote =
  bid_price :: real
  ask_price :: real
  bid_size :: real
  ask_size :: real

text \<open>
  What \<^verbatim>\<open>self.client.get_crypto_latest_quote(request).get(self.symbol)\<close> gives:
  a quote, a falsy value (no entry for the symbol), or an exception.
\<close>

datatype fetch = Quote quote | NoQuote | FetchRaises

text \<open>The dictionary \<^verbatim>\<open>self.current_candle\<close>: four entries that may hold
  \<^verbatim>\<open>None\<close>, and a volume that is always a number.\<close>

record pending =
  p_open :: "real option"
  p_high :: "real option"
  p_low :: "real option"
  p_close :: "real option"
  p_volume :: real

text \<open>The dictionary \<^verbatim>\<open>candle_data\<close> appended to \<^verbatim>\<open>self.candles\<close>; its
  price entries are copied from the pending dictionary as they are.\<close>

record candle =
  timestamp :: time
  c_open :: "real option"
  c_high :: "real option"
  c_low :: "real option"
  c_close :: "real option"
  c_volume :: real

record collector =
  candles :: "candle list"
  current_candle :: "pending option"
  candle_start :: "time option"

definition interval :: int where
  \<comment> \<open>\<^verbatim>\<open>timedelta(minutes=5)\<close> in microseconds\<close>
  "interval = 300000000"

definition round6 :: "real \<Rightarrow> real" where
  \<comment> \<open>\<^verbatim>\<open>round(x, 6)\<close>: nearest multiple of \<open>10\<^sup>-\<^sup>6\<close>, ties to the even one\<close>
  "round6 x =
     (let y = x * 1000000; f = \<lfloor>y\<rfloor>; d = y - of_int f
      in of_int (if d < 1 / 2 then f
                 else if 1 / 2 < d then f + 1
                 else if even f then f else f + 1) / 1000000)"

definition init_collector :: collector where
  \<comment> \<open>\<^verbatim>\<open>__init__\<close>\<close>
  "init_collector = \<lparr>candles = [], current_candle = None, candle_start = None\<rparr>"

definition start_collection :: "time \<Rightarrow> collector \<Rightarrow> collector" where
  "start_collection now s =
     s\<lparr>candle_start := Some now,
       current_candle := Some \<lparr>p_open = None, p_high = None, p_low = None,
                               p_close = None, p_volume = 0\<rparr>\<rparr>"

definition mid_price :: "quote \<Rightarrow> real" where
  "mid_price q = (bid_price q + ask_price q) / 2"

definition mid_size :: "quote \<Rightarrow> real" where
  "mid_size q = (bid_size q + ask_size q) / 2"

definition seeded :: "real \<Rightarrow> real \<Rightarrow> pending" where
  \<comment> \<open>the fresh dictionary both boundary branches assign\<close>
  "seeded price vol =
     \<lparr>p_open = Some price, p_high = Some price, p_low = Some price,
      p_close = Some price, p_volume = vol\<rparr>"

text \<open>
  \<^verbatim>\<open>update\<close> returns its boolean and the collector after the call. Every exception
  inside the \<^verbatim>\<open>try\<close> is caught and gives \<^verbatim>\<open>False\<close>; the state is then
  whatever had been assigned before the raise:
  \<^item> \<^verbatim>\<open>now - None\<close> and \<^verbatim>\<open>None['open']\<close> raise before any assignment;
  \<^item> \<^verbatim>\<open>max(None, price)\<close> raises before any assignment, \<^verbatim>\<open>min(None, price)\<close>
    after \<^verbatim>\<open>high\<close> has been assigned;
  \<^item> formatting \<^verbatim>\<open>None\<close> with \<^verbatim>\<open>:.2f\<close> raises after the candle has been appended.
\<close>

definition update :: "fetch \<Rightarrow> time \<Rightarrow> collector \<Rightarrow> bool \<times> collector" where
  "update f now s =
    (case f of
       FetchRaises \<Rightarrow> (False, s)
     | NoQuote \<Rightarrow> (False, s)
     | Quote q \<Rightarrow>
        (let price = mid_price q; vol = mid_size q in
         case candle_start s of
           None \<Rightarrow> (False, s)
         | Some cs \<Rightarrow>
            if now - cs \<ge> interval then
              (case current_candle s of
                 None \<Rightarrow> (False, s)
               | Some p \<Rightarrow>
                  if p_open p \<noteq> None then
                    (let candle_data =
                           \<lparr>timestamp = cs, c_open = p_open p, c_high = p_high p,
                            c_low = p_low p, c_close = p_close p,
                            c_volume = round6 (p_volume p)\<rparr>;
                         s1 = s\<lparr>candles := candles s @ [candle_data]\<rparr>
                     in if p_high p = None \<or> p_low p = None \<or> p_close p = None
                        then (False, s1)
                        else (True, s1\<lparr>candle_start := Some now,
                                       current_candle := Some (seeded price vol)\<rparr>))
                  else (False, s\<lparr>candle_start := Some now,
                                  current_candle := Some (seeded price vol)\<rparr>))
            else
              (case current_candle s of
                 None \<Rightarrow> (False, s)
               | Some p \<Rightarrow>
                  (case p_open p of
                     None \<Rightarrow>
                       (False, s\<lparr>current_candle :=
                          Some (p\<lparr>p_open := Some price, p_high := Some price,
                                  p_low := Some price, p_close := Some price,
                                  p_volume := p_volume p + vol\<rparr>)\<rparr>)
                   | Some _ \<Rightarrow>
                      (case p_high p of
                         None \<Rightarrow> (False, s)
                       | Some h \<Rightarrow>
                          (case p_low p of
                             None \<Rightarrow>
                               (False, s\<lparr>current_candle :=
                                  Some (p\<lparr>p_high := Some (max h price)\<rparr>)\<rparr>)
                           | Some l \<Rightarrow>
                               (False, s\<lparr>current_candle :=
                                  Some (p\<lparr>p_high := Some (max h price),
                                          p_low := Some (min l price),
                                          p_close := Some price,
                                          p_volume := p_volume p + vol\<rparr>)\<rparr>)))))))"

definition get_dataframe :: "collector \<Rightarrow> candle list option" where
  \<comment> \<open>the data frame is its rows, in order\<close>
  "get_dataframe s = (if candles s = [] then None else Some (candles s))"

definition has_minimum_candles :: "collector \<Rightarrow> int \<Rightarrow> bool" where
  "has_minimum_candles s min_count \<longleftrightarrow> int (length (candles s)) \<ge> min_count"

section \<open>IntegratedLiveTrader: the orchestration loop\<close>

text \<open>
  Embedding of \<^verbatim>\<open>src/live_trader.py\<close>. The collaborators (quote source, indicator
  calculator, signal detector, broker, Discord notifier) are outside the repository: each
  loop iteration takes what they return or raise as its input, a \<open>tick\<close>, and the trader
  keeps a log of the calls it makes to them, in order. Console output is not modelled.
\<close>

record config =
  min_candles_required :: int
  discord_update_interval :: "real option"
    \<comment> \<open>\<^verbatim>\<open>config.get('DISCORD_UPDATE_INTERVAL', 300)\<close>\<close>

record signal =
  sig_type :: string
  confidence :: real
  price :: real
  rsi :: real

datatype outcome = Returns | Raises

datatype detection = NoSignal | Signal signal | DetectRaises

datatype call =
    SendTradingEnabled nat
  | CalculateIndicators
  | DetectSignal
  | GetAccount
  | SendSignal signal real
  | SendAccountUpdate

record tick =
  fetched :: fetch
    \<comment> \<open>the quote fetch inside \<^verbatim>\<open>update\<close>\<close>
  fetched_at :: time
    \<comment> \<open>\<^verbatim>\<open>datetime.now(timezone.utc)\<close> inside \<^verbatim>\<open>update\<close>\<close>
  enabled_notice :: outcome
    \<comment> \<open>\<^verbatim>\<open>discord.send_trading_enabled\<close>, when called\<close>
  indicators :: outcome
    \<comment> \<open>the five \<^verbatim>\<open>IndicatorCalculator\<close> calls, as one block\<close>
  detection :: detection
    \<comment> \<open>\<^verbatim>\<open>signal_detector.detect_signal(df)\<close>\<close>
  equity :: "real option"
    \<comment> \<open>\<^verbatim>\<open>float(trading_client.get_account().equity)\<close> in \<^verbatim>\<open>on_new_candle\<close>;
        \<open>None\<close> when it raises\<close>
  broker_status :: outcome
    \<comment> \<open>account and positions fetch in \<^verbatim>\<open>send_status_update\<close>\<close>
  clock_check :: real
    \<comment> \<open>\<^verbatim>\<open>time.time()\<close> in the cooldown test\<close>
  clock_after :: real
    \<comment> \<open>\<^verbatim>\<open>time.time()\<close> after the status update\<close>

record trader =
  data_collector :: collector
  discord :: bool
    \<comment> \<open>whether \<^verbatim>\<open>self.discord\<close> holds a notifier\<close>
  trading_enabled :: bool
  signal_detector :: bool
    \<comment> \<open>whether \<^verbatim>\<open>self.signal_detector\<close> holds a detector\<close>
  last_discord_update :: real
  calls :: "call list"
    \<comment> \<open>calls made to the collaborators so far, oldest first\<close>

definition min_lookback :: nat where
  \<comment> \<open>the literal of \<^verbatim>\<open>len(df) < 100\<close>\<close>
  "min_lookback = 100"

definition init_trader :: "bool \<Rightarrow> real \<Rightarrow> trader" where
  \<comment> \<open>after \<^verbatim>\<open>__init__\<close> and \<^verbatim>\<open>initialize\<close>: \<open>d\<close> tells whether a notifier was
      configured and started\<close>
  "init_trader d clock =
     \<lparr>data_collector = init_collector, discord = d, trading_enabled = False,
      signal_detector = False, last_discord_update = clock, calls = []\<rparr>"

definition on_new_candle :: "tick \<Rightarrow> trader \<Rightarrow> trader" where
  "on_new_candle tk t =
    (case get_dataframe (data_collector t) of
       None \<Rightarrow> t
     | Some df \<Rightarrow>
        if length df < min_lookback then t
        else
          (let t1 = t\<lparr>calls := calls t @ [CalculateIndicators]\<rparr> in
           case indicators tk of
             Raises \<Rightarrow> t1
           | Returns \<Rightarrow>
              if signal_detector t1 then
                (let t2 = t1\<lparr>calls := calls t1 @ [DetectSignal]\<rparr> in
                 case detection tk of
                   DetectRaises \<Rightarrow> t2
                 | NoSignal \<Rightarrow> t2
                 | Signal sg \<Rightarrow>
                    if discord t2 then
                      (let t3 = t2\<lparr>calls := calls t2 @ [GetAccount]\<rparr> in
                       case equity tk of
                         None \<Rightarrow> t3
                       | Some e \<Rightarrow> t3\<lparr>calls := calls t3 @ [SendSignal sg e]\<rparr>)
                    else t2)
              else t1))"

definition send_status_update :: "tick \<Rightarrow> trader \<Rightarrow> trader" where
  "send_status_update tk t =
    (if \<not> discord t then t
     else
       (let t1 = t\<lparr>calls := calls t @ [GetAccount]\<rparr> in
        case broker_status tk of
          Raises \<Rightarrow> t1
        | Returns \<Rightarrow> t1\<lparr>calls := calls t1 @ [SendAccountUpdate]\<rparr>))"

text \<open>
  The block of \<^verbatim>\<open>run\<close> under \<^verbatim>\<open>if not self.trading_enabled\<close>. The call of
  \<^verbatim>\<open>send_trading_enabled\<close> is not inside a \<^verbatim>\<open>try\<close>: when it raises, the exception
  leaves \<^verbatim>\<open>run\<close>, and the result is \<open>Inl\<close> of the state reached. The constructor
  \<^verbatim>\<open>SignalDetector(self.config)\<close> is taken to return.
\<close>

definition enable_trading :: "config \<Rightarrow> tick \<Rightarrow> trader \<Rightarrow> trader + trader" where
  "enable_trading cfg tk t =
    (if \<not> trading_enabled t then
       if has_minimum_candles (data_collector t) (min_candles_required cfg) then
         (let t1 = t\<lparr>trading_enabled := True, signal_detector := True\<rparr> in
          if discord t1 then
            (let t2 = t1\<lparr>calls := calls t1 @
                         [SendTradingEnabled (length (candles (data_collector t1)))]\<rparr> in
             case enabled_notice tk of
               Raises \<Rightarrow> Inl t2
             | Returns \<Rightarrow> Inr t2)
          else Inr t1)
       else Inr t
     else Inr t)"

definition iteration :: "config \<Rightarrow> tick \<Rightarrow> trader \<Rightarrow> trader + trader" where
  \<comment> \<open>one pass through the body of \<^verbatim>\<open>while self.running\<close>\<close>
  "iteration cfg tk t =
    (let (new_candle, dc) = update (fetched tk) (fetched_at tk) (data_collector t);
         t1 = t\<lparr>data_collector := dc\<rparr>
     in case enable_trading cfg tk t1 of
          Inl t2 \<Rightarrow> Inl t2
        | Inr t2 \<Rightarrow>
           (let t3 = (if trading_enabled t2 \<and> new_candle then on_new_candle tk t2 else t2);
                t4 = (if discord t3 \<and> trading_enabled t3 then
                        if clock_check tk - last_discord_update t3 >
                             (case discord_update_interval cfg of None \<Rightarrow> 300 | Some v \<Rightarrow> v)
                        then (send_status_update tk t3)\<lparr>last_discord_update := clock_after tk\<rparr>
                        else t3
                      else t3)
            in Inr t4))"

fun run_loop :: "config \<Rightarrow> trader \<Rightarrow> tick list \<Rightarrow> trader + trader" where
  "run_loop cfg t [] = Inr t"
| "run_loop cfg t (tk # tks) =
     (case iteration cfg tk t of
        Inl t' \<Rightarrow> Inl t'
      | Inr t' \<Rightarrow> run_loop cfg t' tks)"

definition run :: "config \<Rightarrow> bool \<Rightarrow> real \<Rightarrow> time \<Rightarrow> tick list \<Rightarrow> trader + trader" where
  \<comment> \<open>\<^verbatim>\<open>run\<close> up to the end of the given ticks: \<open>t0\<close> is the clock read by
      \<^verbatim>\<open>start_collection\<close>\<close>
  "run cfg d clock t0 tks =
     run_loop cfg ((init_trader d clock)\<lparr>data_collector := start_collection t0 init_collector\<rparr>) tks"

definition state_of :: "trader + trader \<Rightarrow> trader" where
  \<comment> \<open>the trader as the loop left it, whether it ended by an exception or not\<close>
  "state_of r = (case r of Inl t \<Rightarrow> t | Inr t \<Rightarrow> t)"

definition enabled_notices :: "call list \<Rightarrow> nat" where
  "enabled_notices cs = length (filter (\<lambda>c. case c of SendTradingEnabled _ \<Rightarrow> True | _ \<Rightarrow> False) cs)"

section \<open>Reference definitions\<close>

text \<open>
  The collector as successive loop iterations drive it: one \<^verbatim>\<open>update\<close> per event,
  an event being the fetch result and the clock of that call.
\<close>

fun ingest_all :: "collector \<Rightarrow> (fetch \<times> time) list \<Rightarrow> collector" where
  "ingest_all s [] = s"
| "ingest_all s ((f, now) # evs) = ingest_all (snd (update f now s)) evs"

fun quotes_of :: "(fetch \<times> time) list \<Rightarrow> quote list" where
  "quotes_of [] = []"
| "quotes_of ((Quote q, now) # evs) = q # quotes_of evs"
| "quotes_of (_ # evs) = quotes_of evs"

text \<open>
  The candle a window should give, in the words of the specification: first, maximum,
  minimum and last mid-price, and the rounded sum of the mid-sizes, of the quotes \<open>qs\<close>
  of the window that started at \<open>ws\<close>. \<open>aggregate\<close> is the same for a window still open.
\<close>

definition window_candle :: "time \<Rightarrow> quote list \<Rightarrow> candle" where
  "window_candle ws qs =
     \<lparr>timestamp = ws,
      c_open = Some (mid_price (hd qs)),
      c_high = Some (Max (set (map mid_price qs))),
      c_low = Some (Min (set (map mid_price qs))),
      c_close = Some (mid_price (last qs)),
      c_volume = round6 (sum_list (map mid_size qs))\<rparr>"

definition aggregate :: "quote list \<Rightarrow> pending" where
  "aggregate qs =
     (if qs = [] then \<lparr>p_open = None, p_high = None, p_low = None, p_close = None, p_volume = 0\<rparr>
      else \<lparr>p_open = Some (mid_price (hd qs)),
            p_high = Some (Max (set (map mid_price qs))),
            p_low = Some (Min (set (map mid_price qs))),
            p_close = Some (mid_price (last qs)),
            p_volume = sum_list (map mid_size qs)\<rparr>)"

text \<open>
  The windows of a run, in the words of the specification: a quote that arrives before
  the interval has elapsed joins the open window, a later one closes it (when it holds a
  quote) and opens the next, of which it is the first quote.
\<close>

fun closed_windows :: "time \<Rightarrow> quote list \<Rightarrow> (fetch \<times> time) list \<Rightarrow> (time \<times> quote list) list" where
  "closed_windows ws cur [] = []"
| "closed_windows ws cur ((Quote q, now) # evs) =
     (if now - ws < interval then closed_windows ws (cur @ [q]) evs
      else if cur = [] then closed_windows now [q] evs
      else (ws, cur) # closed_windows now [q] evs)"
| "closed_windows ws cur (_ # evs) = closed_windows ws cur evs"

fun open_window :: "time \<Rightarrow> quote list \<Rightarrow> (fetch \<times> time) list \<Rightarrow> time \<times> quote list" where
  "open_window ws cur [] = (ws, cur)"
| "open_window ws cur ((Quote q, now) # evs) =
     (if now - ws < interval then open_window ws (cur @ [q]) evs
      else open_window now [q] evs)"
| "open_window ws cur (_ # evs) = open_window ws cur evs"

text \<open>The trader after the first \<open>n\<close> iterations of a run (or where an exception ended
  the run before).\<close>

definition after_iterations ::
  "config \<Rightarrow> bool \<Rightarrow> real \<Rightarrow> time \<Rightarrow> tick list \<Rightarrow> nat \<Rightarrow> trader" where
  "after_iterations cfg d clock t0 tks n = state_of (run cfg d clock t0 (take n tks))"

text \<open>The calls to the indicator calculator and to the signal detector in a call log.\<close>

definition evaluations :: "call list \<Rightarrow> call list" where
  "evaluations cs = filter (\<lambda>c. c = CalculateIndicators \<or> c = DetectSignal) cs"

text \<open>What an iteration does after the block that enables trading; \<open>iteration_alt\<close>
  below shows that it is that part of \<open>iteration\<close>.\<close>

definition after_gate :: "config \<Rightarrow> tick \<Rightarrow> bool \<Rightarrow> trader \<Rightarrow> trader" where
  "after_gate cfg tk new_candle t2 =
     (let t3 = (if trading_enabled t2 \<and> new_candle then on_new_candle tk t2 else t2);
          t4 = (if discord t3 \<and> trading_enabled t3 then
                  if clock_check tk - last_discord_update t3 >
                       (case discord_update_interval cfg of None \<Rightarrow> 300 | Some v \<Rightarrow> v)
                  then (send_status_update tk t3)\<lparr>last_discord_update := clock_after tk\<rparr>
                  else t3
                else t3)
      in t4)"

text \<open>Sample data: a quote with a given mid-price and mid-size, and the quotes of one
  window, with mid-prices 100, 105, 95, 102 and two failed fetches in between.\<close>

definition sample_quote :: "real \<Rightarrow> real \<Rightarrow> quote" where
  "sample_quote p v = \<lparr>bid_price = p - 1, ask_price = p + 1, bid_size = v / 2, ask_size = 3 * v / 2\<rparr>"

definition sample_window :: "time \<Rightarrow> (fetch \<times> time) list" where
  "sample_window t0 =
     [(Quote (sample_quote 100 0.5), t0 + 1000000), (Quote (sample_quote 105 0.25), t0 + 2000000),
      (NoQuote, t0 + 3000000), (Quote (sample_quote 95 0.1234567), t0 + 4000000),
      (FetchRaises, t0 + 5000000), (Quote (sample_quote 102 1), t0 + 299999999)]"

text \<open>A tick whose quote has a given mid-price, with collaborators that return and no
  signal; a detected signal; a collector that holds a hundred one-quote candles, five
  minutes apart; a trader in the enabled state around a collector; and the ticks of a run
  that completes one candle per iteration from the second on.\<close>

definition sample_tick :: "real \<Rightarrow> time \<Rightarrow> tick" where
  "sample_tick p tm =
     \<lparr>fetched = Quote (sample_quote p 1), fetched_at = tm, enabled_notice = Returns,
      indicators = Returns, detection = NoSignal, equity = Some 1000,
      broker_status = Returns, clock_check = 0, clock_after = 0\<rparr>"

definition sample_signal :: signal where
  "sample_signal = \<lparr>sig_type = ''BUY'', confidence = 0.8, price = 100, rsi = 25\<rparr>"

definition sample_history :: collector where
  "sample_history =
     \<lparr>candles = map (\<lambda>i. window_candle (int i * interval) [sample_quote 100 1]) [0..<100],
      current_candle = Some (aggregate [sample_quote 100 1]),
      candle_start = Some (100 * interval)\<rparr>"

definition sample_trader :: "collector \<Rightarrow> trader" where
  "sample_trader c =
     \<lparr>data_collector = c, discord = True, trading_enabled = True, signal_detector = True,
      last_discord_update = 0, calls = []\<rparr>"

definition sample_config :: "int \<Rightarrow> config" where
  "sample_config m = \<lparr>min_candles_required = m, discord_update_interval = None\<rparr>"

definition sample_ticks :: "nat \<Rightarrow> tick list" where
  "sample_ticks n = map (\<lambda>i. sample_tick 100 (int i * interval)) [0..<n]"

section \<open>Properties of the collector\<close>

lemma aggregate_snoc:
  "aggregate (qs @ [q]) =
     (if qs = [] then seeded (mid_price q) (mid_size q)
      else (aggregate qs)\<lparr>p_high := Some (max (the (p_high (aggregate qs))) (mid_price q)),
                           p_low := Some (min (the (p_low (aggregate qs))) (mid_price q)),
                           p_close := Some (mid_price q),
                           p_volume := p_volume (aggregate qs) + mid_size q\<rparr>)"
proof (cases "qs = []")
  case True
  then show ?thesis by (simp add: aggregate_def seeded_def)
next
  case False
  then show ?thesis
    by (simp add: aggregate_def max.commute min.commute)
qed

lemma update_in_window:
  assumes "candle_start s = Some ws" "current_candle s = Some (aggregate cur)" "now - ws < interval"
  shows "update (Quote q) now s = (False, s\<lparr>current_candle := Some (aggregate (cur @ [q]))\<rparr>)"
  using assms
  by (cases "cur = []") (auto simp: update_def aggregate_snoc seeded_def Let_def, auto simp: aggregate_def)

lemma update_boundary:
  assumes "candle_start s = Some ws" "current_candle s = Some (aggregate cur)" "interval \<le> now - ws"
  shows "update (Quote q) now s =
     (cur \<noteq> [], s\<lparr>candles := (if cur = [] then candles s else candles s @ [window_candle ws cur]),
                   candle_start := Some now, current_candle := Some (aggregate [q])\<rparr>)"
  using assms
  by (auto simp: update_def aggregate_def window_candle_def seeded_def Let_def)

lemma ingest_all_refines:
  assumes "candle_start s = Some ws" "current_candle s = Some (aggregate cur)"
  shows "ingest_all s evs =
     s\<lparr>candles := candles s @ map (\<lambda>(w, qs). window_candle w qs) (closed_windows ws cur evs),
       candle_start := Some (fst (open_window ws cur evs)),
       current_candle := Some (aggregate (snd (open_window ws cur evs)))\<rparr>"
  using assms
proof (induction ws cur evs arbitrary: s rule: closed_windows.induct)
  case (2 ws cur q now evs)
  show ?case
  proof (cases "now - ws < interval")
    case True
    then show ?thesis using 2 by (simp add: update_in_window)
  next
    case False
    then show ?thesis using 2 by (simp add: update_boundary)
  qed
qed (simp_all add: update_def)


lemma in_window_only:
  "\<forall>(f, t) \<in> set evs. t - ws < interval \<Longrightarrow>
     closed_windows ws cur evs = [] \<and> open_window ws cur evs = (ws, cur @ quotes_of evs)"
  by (induction ws cur evs rule: closed_windows.induct) auto

lemma closed_windows_nonempty:
  "\<forall>(w, qs) \<in> set (closed_windows ws cur evs). qs \<noteq> []"
  by (induction ws cur evs rule: closed_windows.induct) auto

lemma closed_windows_chrono:
  "sorted_wrt (<) (map fst (closed_windows ws cur evs)) \<and>
   (\<forall>w \<in> set (map fst (closed_windows ws cur evs)). ws \<le> w)"
proof (induction ws cur evs rule: closed_windows.induct)
  case (2 ws cur q now evs)
  have pos: "0 < interval" by (simp add: interval_def)
  show ?case
  proof (cases "now - ws < interval")
    case True
    then show ?thesis using 2 by simp
  next
    case False
    then have lt: "ws < now" using pos by linarith
    show ?thesis
    proof (cases "cur = []")
      case True
      then show ?thesis using 2 False lt by fastforce
    next
      case False
      then show ?thesis using 2 \<open>\<not> now - ws < interval\<close> lt by fastforce
    qed
  qed
qed simp_all

lemma start_collection_aggregate:
  "candle_start (start_collection t0 c) = Some t0 \<and>
   current_candle (start_collection t0 c) = Some (aggregate []) \<and>
   candles (start_collection t0 c) = candles c"
  by (simp add: start_collection_def aggregate_def)

lemma window_closes:
  assumes cs: "candle_start s1 = Some t0" and cc: "current_candle s1 = Some (aggregate cur)"
      and inw: "\<forall>(f, t) \<in> set evs. t - t0 < interval" and bnd: "interval \<le> t' - t0"
      and ne: "cur @ quotes_of evs \<noteq> []"
  shows "fst (update (Quote q') t' (ingest_all s1 evs)) \<and>
         candles (snd (update (Quote q') t' (ingest_all s1 evs))) =
           candles s1 @ [window_candle t0 (cur @ quotes_of evs)]"
proof -
  let ?s2 = "ingest_all s1 evs"
  have s2: "?s2 = s1\<lparr>candles := candles s1, candle_start := Some t0,
                       current_candle := Some (aggregate (cur @ quotes_of evs))\<rparr>"
    using ingest_all_refines [OF cs cc, of evs] in_window_only [OF inw, of cur] by simp
  have "candle_start ?s2 = Some t0" "current_candle ?s2 = Some (aggregate (cur @ quotes_of evs))"
       "candles ?s2 = candles s1"
    by (simp_all add: s2)
  then show ?thesis using update_boundary [of ?s2 t0 "cur @ quotes_of evs" t' q'] bnd ne
    by simp
qed

text \<open>
  C1. Let a window open at \<open>t0\<close>, either by \<^verbatim>\<open>start_collection\<close> or, in a running
  collector, by the quote \<open>q0\<close> that arrives once the interval of the window before has
  elapsed and is the first quote of the new window. Let every following call up to the
  next boundary come before the interval has elapsed since \<open>t0\<close>, whatever its fetch gives.
  Then the first call at or after the boundary returns \<^verbatim>\<open>True\<close> and appends exactly
  one candle: its open is the mid-price of the first quote of the window, its close that
  of the last, its high and low the maximum and minimum of the mid-prices, and its volume
  the sum of the mid-sizes rounded to six decimals (\<open>window_candle\<close>). A first window in
  which no quote arrived is the case excluded by \<open>quotes_of evs \<noteq> []\<close>.
\<close>

theorem window_candle_ohlcv:
  assumes inw: "\<forall>(f, t) \<in> set evs. t - t0 < interval" and bnd: "interval \<le> t' - t0"
  shows "(quotes_of evs \<noteq> [] \<longrightarrow>
            (let s1 = start_collection t0 c;
                 (r, s2) = update (Quote q') t' (ingest_all s1 evs)
             in r \<and> candles s2 = candles s1 @ [window_candle t0 (quotes_of evs)]))
       \<and> (candle_start (ingest_all (start_collection ts c) evs0) = Some tp \<and> interval \<le> t0 - tp \<longrightarrow>
            (let s1 = snd (update (Quote q0) t0 (ingest_all (start_collection ts c) evs0));
                 (r, s2) = update (Quote q') t' (ingest_all s1 evs)
             in r \<and> candles s2 = candles s1 @ [window_candle t0 (q0 # quotes_of evs)]))"
proof (intro conjI impI)
  assume ne: "quotes_of evs \<noteq> []"
  let ?s1 = "start_collection t0 c"
  have "fst (update (Quote q') t' (ingest_all ?s1 evs)) \<and>
        candles (snd (update (Quote q') t' (ingest_all ?s1 evs))) =
          candles ?s1 @ [window_candle t0 ([] @ quotes_of evs)]"
    using start_collection_aggregate [of t0 c] inw bnd ne
    by (intro window_closes) simp_all
  then show "let s1 = start_collection t0 c;
                 (r, s2) = update (Quote q') t' (ingest_all s1 evs)
             in r \<and> candles s2 = candles s1 @ [window_candle t0 (quotes_of evs)]"
    by (simp add: Let_def case_prod_beta)
next
  assume h: "candle_start (ingest_all (start_collection ts c) evs0) = Some tp \<and> interval \<le> t0 - tp"
  let ?s = "ingest_all (start_collection ts c) evs0"
  let ?s1 = "snd (update (Quote q0) t0 ?s)"
  obtain cur where cc: "current_candle ?s = Some (aggregate cur)"
    using ingest_all_refines [of "start_collection ts c" ts "[]" evs0]
          start_collection_aggregate [of ts c] by simp
  have s1: "candle_start ?s1 = Some t0" "current_candle ?s1 = Some (aggregate [q0])"
    using update_boundary [of ?s tp cur t0 q0] h cc by simp_all
  have "fst (update (Quote q') t' (ingest_all ?s1 evs)) \<and>
        candles (snd (update (Quote q') t' (ingest_all ?s1 evs))) =
          candles ?s1 @ [window_candle t0 ([q0] @ quotes_of evs)]"
    using s1 inw bnd by (intro window_closes) simp_all
  then show "let s1 = snd (update (Quote q0) t0 (ingest_all (start_collection ts c) evs0));
                 (r, s2) = update (Quote q') t' (ingest_all s1 evs)
             in r \<and> candles s2 = candles s1 @ [window_candle t0 (q0 # quotes_of evs)]"
    by (simp add: Let_def case_prod_beta)
qed


lemma sample_mid [simp]: "mid_price (sample_quote p v) = p" "mid_size (sample_quote p v) = v"
  by (simp_all add: sample_quote_def mid_price_def mid_size_def)


lemma sample_quotes:
  "quotes_of (sample_window t) =
     [sample_quote 100 0.5, sample_quote 105 0.25, sample_quote 95 0.1234567, sample_quote 102 1]"
  by (simp add: sample_window_def)

lemma sample_in_window: "\<forall>(f, t) \<in> set (sample_window t0). t - t0 < interval"
  by (simp add: sample_window_def interval_def)

theorem window_candle_ohlcv_witness:
  "interval \<le> 600000000 - 300000000 \<and>
   quotes_of (sample_window 300000000) \<noteq> [] \<and>
   candles (snd (update (Quote (sample_quote 90 1)) 600000000
                   (ingest_all (start_collection 300000000 init_collector)
                      (sample_window 300000000)))) =
     [\<lparr>timestamp = 300000000, c_open = Some 100, c_high = Some 105, c_low = Some 95,
       c_close = Some 102, c_volume = 1.873457\<rparr>] \<and>
   candle_start (ingest_all (start_collection 0 init_collector) []) = Some 0 \<and>
   interval \<le> 300000000 - 0 \<and>
   candles (snd (update (Quote (sample_quote 90 1)) 600000000
                   (ingest_all (snd (update (Quote (sample_quote 107 2)) 300000000
                                       (ingest_all (start_collection 0 init_collector) [])))
                      (sample_window 300000000)))) =
     [\<lparr>timestamp = 300000000, c_open = Some 107, c_high = Some 107, c_low = Some 95,
       c_close = Some 102, c_volume = 3.873457\<rparr>]"
proof -
  have h1: "\<forall>(f, t) \<in> set (sample_window 300000000). t - 300000000 < interval"
    by (rule sample_in_window)
  have h2: "interval \<le> 600000000 - 300000000" by (simp add: interval_def)
  have h3: "quotes_of (sample_window 300000000) \<noteq> []" by (simp add: sample_quotes)
  have h4: "candle_start (ingest_all (start_collection 0 init_collector) []) = Some 0"
    by (simp add: start_collection_def)
  have h5: "interval \<le> 300000000 - 0" by (simp add: interval_def)
  have w1: "window_candle 300000000 (quotes_of (sample_window 300000000)) =
     \<lparr>timestamp = 300000000, c_open = Some 100, c_high = Some 105, c_low = Some 95,
      c_close = Some 102, c_volume = 1.873457\<rparr>"
    by (simp add: sample_quotes window_candle_def round6_def)
  have w2: "window_candle 300000000
              (sample_quote 107 2 # quotes_of (sample_window 300000000)) =
     \<lparr>timestamp = 300000000, c_open = Some 107, c_high = Some 107, c_low = Some 95,
      c_close = Some 102, c_volume = 3.873457\<rparr>"
    by (simp add: sample_quotes window_candle_def round6_def)
  have e1: "candles (start_collection 300000000 init_collector) = []"
    by (simp add: start_collection_def init_collector_def)
  have e2: "candles (snd (update (Quote (sample_quote 107 2)) 300000000
              (start_collection 0 init_collector))) = []"
    by (simp add: update_def start_collection_def init_collector_def interval_def)
  from window_candle_ohlcv [OF h1 h2, where q' = "sample_quote 90 1" and c = init_collector
         and ts = 0 and ?evs0.0 = "[]" and tp = 0 and ?q0.0 = "sample_quote 107 2"] h3 h4 h5
  show ?thesis using h2
    by (simp add: Let_def case_prod_beta w1 w2 e1 e2)
qed

text \<open>
  C3. A call at or after the window boundary that finds the pending dictionary without
  an open price returns \<^verbatim>\<open>False\<close>, moves the window start to the clock of the call
  and leaves the history as it was. In every run from \<^verbatim>\<open>start_collection\<close>, the history
  is the list of the candles of the closed windows, and each closed window holds at least
  one quote.
\<close>

theorem no_empty_candle:
  "(candle_start s = Some ws \<and> interval \<le> now - ws \<and> current_candle s = Some p \<and>
    p_open p = None \<longrightarrow>
      \<not> fst (update (Quote q) now s) \<and>
      candle_start (snd (update (Quote q) now s)) = Some now \<and>
      candles (snd (update (Quote q) now s)) = candles s)
   \<and> candles (ingest_all (start_collection t0 init_collector) evs) =
        map (\<lambda>(w, qs). window_candle w qs) (closed_windows t0 [] evs)
   \<and> (\<forall>(w, qs) \<in> set (closed_windows t0 [] evs). qs \<noteq> [])"
proof (intro conjI impI)
  assume "candle_start s = Some ws \<and> interval \<le> now - ws \<and> current_candle s = Some p \<and>
    p_open p = None"
  then show "\<not> fst (update (Quote q) now s)"
    "candle_start (snd (update (Quote q) now s)) = Some now"
    "candles (snd (update (Quote q) now s)) = candles s"
    by (simp_all add: update_def)
next
  show "candles (ingest_all (start_collection t0 init_collector) evs) =
        map (\<lambda>(w, qs). window_candle w qs) (closed_windows t0 [] evs)"
    using ingest_all_refines [of "start_collection t0 init_collector" t0 "[]" evs]
          start_collection_aggregate [of t0 init_collector]
    by (simp add: init_collector_def)
next
  show "\<forall>(w, qs) \<in> set (closed_windows t0 [] evs). qs \<noteq> []"
    by (rule closed_windows_nonempty)
qed

theorem no_empty_candle_witness:
  "candle_start (start_collection 0 init_collector) = Some 0 \<and>
   interval \<le> 300000000 - 0 \<and>
   current_candle (start_collection 0 init_collector) =
     Some \<lparr>p_open = None, p_high = None, p_low = None, p_close = None, p_volume = 0\<rparr> \<and>
   \<not> fst (update (Quote (sample_quote 100 1)) 300000000 (start_collection 0 init_collector)) \<and>
   candle_start (snd (update (Quote (sample_quote 100 1)) 300000000
                        (start_collection 0 init_collector))) = Some 300000000 \<and>
   candles (snd (update (Quote (sample_quote 100 1)) 300000000
                   (start_collection 0 init_collector))) = [] \<and>
   closed_windows 0 [] (sample_window 0 @ [(Quote (sample_quote 90 1), 300000000)]) =
     [(0, quotes_of (sample_window 0))] \<and>
   candles (ingest_all (start_collection 0 init_collector)
              (sample_window 0 @ [(Quote (sample_quote 90 1), 300000000)])) =
     [window_candle 0 (quotes_of (sample_window 0))] \<and>
   quotes_of (sample_window 0) \<noteq> []"
proof -
  have cw: "closed_windows 0 [] (sample_window 0 @ [(Quote (sample_quote 90 1), 300000000)]) =
     [(0, quotes_of (sample_window 0))]"
    by (simp add: sample_window_def interval_def)
  have h: "candle_start (start_collection 0 init_collector) = Some 0 \<and>
     interval \<le> 300000000 - 0 \<and>
     current_candle (start_collection 0 init_collector) =
       Some \<lparr>p_open = None, p_high = None, p_low = None, p_close = None, p_volume = 0\<rparr> \<and>
     p_open \<lparr>p_open = None, p_high = None, p_low = None, p_close = None, p_volume = 0\<rparr> = None"
    by (simp add: start_collection_def interval_def)
  from no_empty_candle [of "start_collection 0 init_collector" 0 300000000
         "\<lparr>p_open = None, p_high = None, p_low = None, p_close = None, p_volume = 0\<rparr>"
         "sample_quote 100 1" 0 "sample_window 0 @ [(Quote (sample_quote 90 1), 300000000)]"]
  show ?thesis using h by (simp add: cw start_collection_aggregate init_collector_def)
qed

text \<open>
  C8. From every state and for every fetch result and clock, \<^verbatim>\<open>update\<close> leaves the
  length of the history unchanged or increases it by one, and it increases it exactly when
  a quote arrives at or after the window boundary and the pending dictionary holds an open
  price; \<^verbatim>\<open>start_collection\<close> keeps the history. The collector has one pending
  dictionary, the field \<open>current_candle\<close>.
\<close>

theorem history_grows_by_at_most_one:
  "(length (candles (snd (update f now s))) = length (candles s) \<or>
    length (candles (snd (update f now s))) = length (candles s) + 1) \<and>
   (length (candles (snd (update f now s))) = length (candles s) + 1 \<longleftrightarrow>
      (\<exists>q ws p. f = Quote q \<and> candle_start s = Some ws \<and> interval \<le> now - ws \<and>
                 current_candle s = Some p \<and> p_open p \<noteq> None)) \<and>
   length (candles (start_collection now s)) = length (candles s)"
  by (auto simp: update_def start_collection_def Let_def split: fetch.splits option.splits)

theorem history_grows_by_at_most_one_witness:
  "length (candles (snd (update (Quote (sample_quote 90 1)) 300000000
                          (ingest_all (start_collection 0 init_collector) (sample_window 0))))) =
     length (candles (ingest_all (start_collection 0 init_collector) (sample_window 0))) + 1 \<and>
   length (candles (snd (update NoQuote 300000000
                          (ingest_all (start_collection 0 init_collector) (sample_window 0))))) =
     length (candles (ingest_all (start_collection 0 init_collector) (sample_window 0)))"
proof -
  let ?s = "ingest_all (start_collection 0 init_collector) (sample_window 0)"
  have s: "candle_start ?s = Some 0 \<and> interval \<le> 300000000 - 0 \<and>
           current_candle ?s = Some (aggregate (quotes_of (sample_window 0))) \<and>
           p_open (aggregate (quotes_of (sample_window 0))) \<noteq> None"
    using ingest_all_refines [of "start_collection 0 init_collector" 0 "[]" "sample_window 0"]
          in_window_only [OF sample_in_window, of 0 "[]"]
    by (simp add: start_collection_aggregate interval_def aggregate_def sample_quotes)
  have "length (candles (snd (update (Quote (sample_quote 90 1)) 300000000 ?s))) =
        length (candles ?s) + 1"
    using history_grows_by_at_most_one [of "Quote (sample_quote 90 1)" 300000000 ?s] s by blast
  moreover have "length (candles (snd (update NoQuote 300000000 ?s))) = length (candles ?s)"
    using history_grows_by_at_most_one [of NoQuote 300000000 ?s] by auto
  ultimately show ?thesis by simp
qed

text \<open>
  C9. \<^verbatim>\<open>update\<close> leaves the history as it was or appends one candle at its end, and
  that candle carries the window start held before the call; \<^verbatim>\<open>start_collection\<close>
  keeps the history (the two other methods only read). In every run from
  \<^verbatim>\<open>start_collection\<close>, whatever the clock gives, the timestamps of the history are
  strictly increasing.
\<close>

theorem history_append_only_chronological:
  "(candles (snd (update f now s)) = candles s \<or>
    (\<exists>c. candles (snd (update f now s)) = candles s @ [c] \<and>
         candle_start s = Some (timestamp c))) \<and>
   candles (start_collection now s) = candles s \<and>
   sorted_wrt (<) (map timestamp (candles (ingest_all (start_collection t0 init_collector) evs)))"
proof (intro conjI)
  show "candles (snd (update f now s)) = candles s \<or>
    (\<exists>c. candles (snd (update f now s)) = candles s @ [c] \<and>
         candle_start s = Some (timestamp c))"
    by (auto simp: update_def Let_def split: fetch.splits option.splits)
next
  show "candles (start_collection now s) = candles s"
    by (simp add: start_collection_def)
next
  have c: "candles (ingest_all (start_collection t0 init_collector) evs) =
        map (\<lambda>(w, qs). window_candle w qs) (closed_windows t0 [] evs)"
    using ingest_all_refines [of "start_collection t0 init_collector" t0 "[]" evs]
          start_collection_aggregate [of t0 init_collector]
    by (simp add: init_collector_def)
  have "map timestamp (map (\<lambda>(w, qs). window_candle w qs) ws) = map fst ws" for ws
    by (induction ws) (auto simp: window_candle_def)
  then have "map timestamp (candles (ingest_all (start_collection t0 init_collector) evs)) =
        map fst (closed_windows t0 [] evs)"
    by (simp only: c)
  then show "sorted_wrt (<) (map timestamp
               (candles (ingest_all (start_collection t0 init_collector) evs)))"
    using closed_windows_chrono [of t0 "[]" evs] by simp
qed



theorem history_append_only_chronological_witness:
  "map timestamp (candles (ingest_all (start_collection 0 init_collector)
     (sample_window 0 @ (Quote (sample_quote 90 1), 300000000) # sample_window 300000000 @
        [(Quote (sample_quote 91 1), 100000000), (Quote (sample_quote 91 1), 650000000)]))) =
     [0, 300000000] \<and>
   sorted_wrt (<) [0 :: time, 300000000]"
proof -
  let ?evs = "sample_window 0 @ (Quote (sample_quote 90 1), 300000000) # sample_window 300000000 @
        [(Quote (sample_quote 91 1), 100000000), (Quote (sample_quote 91 1), 650000000)]"
  have "map timestamp (candles (ingest_all (start_collection 0 init_collector) ?evs)) =
          [0, 300000000]"
    by (simp add: sample_window_def start_collection_def init_collector_def update_def
          interval_def seeded_def Let_def)
  then show ?thesis
    using history_append_only_chronological [of NoQuote 0 init_collector 0 ?evs] by simp
qed

text \<open>
  C4. A call of \<^verbatim>\<open>update\<close> whose fetch yields no quote, or whose fetch raises,
  returns \<^verbatim>\<open>False\<close> (no candle) and leaves the whole collector, from any state,
  exactly as it was.
\<close>

theorem update_unavailable_unchanged:
  "update NoQuote now s = (False, s) \<and> update FetchRaises now s = (False, s)"
  by (simp add: update_def)

section \<open>Properties of the orchestration loop\<close>

lemma state_of_simps [simp]: "state_of (Inl t) = t" "state_of (Inr t) = t"
  by (simp_all add: state_of_def)

lemma enabled_notices_append [simp]:
  "enabled_notices (xs @ ys) = enabled_notices xs + enabled_notices ys"
  by (simp add: enabled_notices_def)

lemma enabled_notices_simps [simp]:
  "enabled_notices [] = 0"
  "enabled_notices (SendTradingEnabled n # cs) = Suc (enabled_notices cs)"
  "enabled_notices (CalculateIndicators # cs) = enabled_notices cs"
  "enabled_notices (DetectSignal # cs) = enabled_notices cs"
  "enabled_notices (GetAccount # cs) = enabled_notices cs"
  "enabled_notices (SendSignal sg e # cs) = enabled_notices cs"
  "enabled_notices (SendAccountUpdate # cs) = enabled_notices cs"
  by (simp_all add: enabled_notices_def)

lemma evaluations_append [simp]: "evaluations (xs @ ys) = evaluations xs @ evaluations ys"
  by (simp add: evaluations_def)

lemma evaluations_simps [simp]:
  "evaluations [] = []"
  "evaluations (SendTradingEnabled n # cs) = evaluations cs"
  "evaluations (CalculateIndicators # cs) = CalculateIndicators # evaluations cs"
  "evaluations (DetectSignal # cs) = DetectSignal # evaluations cs"
  "evaluations (GetAccount # cs) = evaluations cs"
  "evaluations (SendSignal sg e # cs) = evaluations cs"
  "evaluations (SendAccountUpdate # cs) = evaluations cs"
  by (simp_all add: evaluations_def)

lemma on_new_candle_frame:
  "data_collector (on_new_candle tk t) = data_collector t"
  "discord (on_new_candle tk t) = discord t"
  "trading_enabled (on_new_candle tk t) = trading_enabled t"
  "signal_detector (on_new_candle tk t) = signal_detector t"
  "last_discord_update (on_new_candle tk t) = last_discord_update t"
  "enabled_notices (calls (on_new_candle tk t)) = enabled_notices (calls t)"
  by (simp_all add: on_new_candle_def Let_def
        split: option.splits outcome.splits detection.splits)

lemma send_status_update_frame:
  "data_collector (send_status_update tk t) = data_collector t"
  "discord (send_status_update tk t) = discord t"
  "trading_enabled (send_status_update tk t) = trading_enabled t"
  "signal_detector (send_status_update tk t) = signal_detector t"
  "enabled_notices (calls (send_status_update tk t)) = enabled_notices (calls t)"
  "evaluations (calls (send_status_update tk t)) = evaluations (calls t)"
  by (simp_all add: send_status_update_def Let_def split: outcome.splits)

lemma enable_trading_frame:
  "data_collector (state_of (enable_trading cfg tk t)) = data_collector t"
  "discord (state_of (enable_trading cfg tk t)) = discord t"
  "evaluations (calls (state_of (enable_trading cfg tk t))) = evaluations (calls t)"
  "trading_enabled (state_of (enable_trading cfg tk t)) \<longleftrightarrow>
     trading_enabled t \<or> has_minimum_candles (data_collector t) (min_candles_required cfg)"
  "enabled_notices (calls (state_of (enable_trading cfg tk t))) =
     enabled_notices (calls t) +
       (if discord t \<and> \<not> trading_enabled t \<and>
           has_minimum_candles (data_collector t) (min_candles_required cfg) then 1 else 0)"
  by (simp_all add: enable_trading_def Let_def split: outcome.splits)

lemma enable_trading_Inl:
  "enable_trading cfg tk t = Inl x \<Longrightarrow> trading_enabled x"
  by (auto simp: enable_trading_def Let_def split: outcome.splits if_splits)

lemma iteration_alt:
  "iteration cfg tk t =
     (case enable_trading cfg tk
             (t\<lparr>data_collector := snd (update (fetched tk) (fetched_at tk) (data_collector t))\<rparr>) of
        Inl t2 \<Rightarrow> Inl t2
      | Inr t2 \<Rightarrow> Inr (after_gate cfg tk
                          (fst (update (fetched tk) (fetched_at tk) (data_collector t))) t2))"
  by (auto simp: iteration_def after_gate_def case_prod_beta Let_def split: sum.splits)

lemma after_gate_frame:
  "data_collector (after_gate cfg tk b t) = data_collector t"
  "discord (after_gate cfg tk b t) = discord t"
  "trading_enabled (after_gate cfg tk b t) = trading_enabled t"
  "enabled_notices (calls (after_gate cfg tk b t)) = enabled_notices (calls t)"
  by (simp_all add: after_gate_def Let_def on_new_candle_frame send_status_update_frame)

lemma after_gate_not_enabled:
  "\<not> trading_enabled t \<Longrightarrow> after_gate cfg tk b t = t"
  by (simp add: after_gate_def)

lemma iteration_step:
  fixes cfg tk t
  defines "t' \<equiv> state_of (iteration cfg tk t)"
  shows "data_collector t' = snd (update (fetched tk) (fetched_at tk) (data_collector t))"
    and "discord t' = discord t"
    and "trading_enabled t' \<longleftrightarrow>
           trading_enabled t \<or> has_minimum_candles (data_collector t') (min_candles_required cfg)"
    and "enabled_notices (calls t') = enabled_notices (calls t) +
           (if discord t \<and> \<not> trading_enabled t \<and> trading_enabled t' then 1 else 0)"
    and "\<not> trading_enabled t' \<Longrightarrow> evaluations (calls t') = evaluations (calls t)"
proof -
  let ?t1 = "t\<lparr>data_collector := snd (update (fetched tk) (fetched_at tk) (data_collector t))\<rparr>"
  let ?b = "fst (update (fetched tk) (fetched_at tk) (data_collector t))"
  have t': "t' = (case enable_trading cfg tk ?t1 of Inl t2 \<Rightarrow> t2
                  | Inr t2 \<Rightarrow> after_gate cfg tk ?b t2)"
    by (simp add: t'_def iteration_alt split: sum.splits)
  have fr: "data_collector t' = data_collector (state_of (enable_trading cfg tk ?t1))"
           "discord t' = discord (state_of (enable_trading cfg tk ?t1))"
           "trading_enabled t' = trading_enabled (state_of (enable_trading cfg tk ?t1))"
           "enabled_notices (calls t') =
              enabled_notices (calls (state_of (enable_trading cfg tk ?t1)))"
    by (simp_all add: t' after_gate_frame split: sum.splits)
  show dc: "data_collector t' = snd (update (fetched tk) (fetched_at tk) (data_collector t))"
    by (simp add: fr enable_trading_frame)
  show "discord t' = discord t"
    by (simp add: fr enable_trading_frame)
  show en: "trading_enabled t' \<longleftrightarrow>
           trading_enabled t \<or> has_minimum_candles (data_collector t') (min_candles_required cfg)"
    by (simp add: fr enable_trading_frame)
  show "enabled_notices (calls t') = enabled_notices (calls t) +
           (if discord t \<and> \<not> trading_enabled t \<and> trading_enabled t' then 1 else 0)"
    using en dc by (simp add: fr(4) enable_trading_frame)
  show "evaluations (calls t') = evaluations (calls t)" if ne: "\<not> trading_enabled t'"
  proof (cases "enable_trading cfg tk ?t1")
    case (Inl x)
    then show ?thesis using ne enable_trading_Inl [OF Inl] by (simp add: t')
  next
    case (Inr x)
    then have "\<not> trading_enabled x" using ne fr(3) by simp
    then have "t' = x" using Inr by (simp add: t' after_gate_not_enabled)
    moreover have "evaluations (calls x) = evaluations (calls ?t1)"
      using enable_trading_frame(3) [of cfg tk ?t1] Inr by simp
    ultimately show ?thesis by simp
  qed
qed

lemma update_history_mono:
  "length (candles s) \<le> length (candles (snd (update f now s)))"
  by (auto simp: update_def Let_def split: fetch.splits option.splits)

lemma has_minimum_mono:
  "has_minimum_candles s m \<Longrightarrow> has_minimum_candles (snd (update f now s)) m"
  using update_history_mono [of s f now] by (simp add: has_minimum_candles_def)

lemma iteration_Inl:
  "iteration cfg tk t = Inl x \<Longrightarrow> trading_enabled x"
  by (auto simp: iteration_alt split: sum.splits dest: enable_trading_Inl)


lemma run_loop_history_mono:
  "has_minimum_candles (data_collector t) m \<Longrightarrow>
     has_minimum_candles (data_collector (state_of (run_loop cfg t tks))) m"
proof (induction tks arbitrary: t)
  case Nil
  then show ?case by simp
next
  case (Cons tk tks)
  have h: "has_minimum_candles (data_collector (state_of (iteration cfg tk t))) m"
    using Cons.prems by (simp add: iteration_step(1) has_minimum_mono)
  show ?case
  proof (cases "iteration cfg tk t")
    case (Inl x)
    then show ?thesis using h by simp
  next
    case (Inr x)
    then show ?thesis using h Cons.IH [of x] by simp
  qed
qed

lemma run_loop_discord: "discord (state_of (run_loop cfg t tks)) = discord t"
proof (induction tks arbitrary: t)
  case Nil
  then show ?case by simp
next
  case (Cons tk tks)
  have h: "discord (state_of (iteration cfg tk t)) = discord t" by (rule iteration_step(2))
  show ?case
  proof (cases "iteration cfg tk t")
    case (Inl x)
    then show ?thesis using h by simp
  next
    case (Inr x)
    then show ?thesis using h Cons.IH [of x] by simp
  qed
qed

lemma run_loop_enabled:
  "trading_enabled (state_of (run_loop cfg t tks)) \<longleftrightarrow>
     trading_enabled t \<or>
     (tks \<noteq> [] \<and>
      has_minimum_candles (data_collector (state_of (run_loop cfg t tks))) (min_candles_required cfg))"
proof (induction tks arbitrary: t)
  case Nil
  then show ?case by simp
next
  case (Cons tk tks)
  let ?m = "min_candles_required cfg"
  have st: "trading_enabled (state_of (iteration cfg tk t)) \<longleftrightarrow>
      trading_enabled t \<or> has_minimum_candles (data_collector (state_of (iteration cfg tk t))) ?m"
    by (rule iteration_step(3))
  show ?case
  proof (cases "iteration cfg tk t")
    case (Inl x)
    then show ?thesis using st by simp
  next
    case (Inr x)
    have ih: "trading_enabled (state_of (run_loop cfg x tks)) \<longleftrightarrow>
      trading_enabled x \<or>
      (tks \<noteq> [] \<and> has_minimum_candles (data_collector (state_of (run_loop cfg x tks))) ?m)"
      by (rule Cons.IH)
    have mono: "has_minimum_candles (data_collector x) ?m \<Longrightarrow>
      has_minimum_candles (data_collector (state_of (run_loop cfg x tks))) ?m"
      by (rule run_loop_history_mono)
    have x: "trading_enabled x \<longleftrightarrow> trading_enabled t \<or> has_minimum_candles (data_collector x) ?m"
      using st Inr by simp
    have r: "run_loop cfg t (tk # tks) = run_loop cfg x tks" using Inr by simp
    show ?thesis
    proof (cases "tks = []")
      case True
      then show ?thesis using x r by simp
    next
      case False
      then show ?thesis using x ih mono unfolding r by auto
    qed
  qed
qed

lemma run_loop_enabled_mono:
  "trading_enabled t \<Longrightarrow> trading_enabled (state_of (run_loop cfg t tks))"
  by (simp add: run_loop_enabled)

lemma run_loop_notices:
  "enabled_notices (calls (state_of (run_loop cfg t tks))) =
     enabled_notices (calls t) +
       (if discord t \<and> \<not> trading_enabled t \<and> trading_enabled (state_of (run_loop cfg t tks))
        then 1 else 0)"
proof (induction tks arbitrary: t)
  case Nil
  then show ?case by simp
next
  case (Cons tk tks)
  have st: "enabled_notices (calls (state_of (iteration cfg tk t))) = enabled_notices (calls t) +
      (if discord t \<and> \<not> trading_enabled t \<and> trading_enabled (state_of (iteration cfg tk t))
       then 1 else 0)"
    by (rule iteration_step(4))
  have en: "trading_enabled t \<Longrightarrow> trading_enabled (state_of (iteration cfg tk t))"
    using iteration_step(3) [of cfg tk t] by simp
  show ?case
  proof (cases "iteration cfg tk t")
    case (Inl x)
    then show ?thesis using st by simp
  next
    case (Inr x)
    have d: "discord x = discord t" using iteration_step(2) [of cfg tk t] Inr by simp
    have mono: "trading_enabled x \<Longrightarrow> trading_enabled (state_of (run_loop cfg x tks))"
      by (rule run_loop_enabled_mono)
    show ?thesis using st en Inr Cons.IH [of x] d mono by auto
  qed
qed

lemma run_loop_evaluations:
  "\<not> trading_enabled (state_of (run_loop cfg t tks)) \<Longrightarrow>
     evaluations (calls (state_of (run_loop cfg t tks))) = evaluations (calls t)"
proof (induction tks arbitrary: t)
  case Nil
  then show ?case by simp
next
  case (Cons tk tks)
  show ?case
  proof (cases "iteration cfg tk t")
    case (Inl x)
    then show ?thesis using Cons.prems iteration_step(5) [of cfg tk t] by simp
  next
    case (Inr x)
    have nx: "\<not> trading_enabled x"
      using Cons.prems Inr run_loop_enabled_mono [of x cfg tks] by auto
    then have "evaluations (calls x) = evaluations (calls t)"
      using iteration_step(5) [of cfg tk t] Inr by simp
    then show ?thesis using Cons.prems Inr Cons.IH [of x] by simp
  qed
qed

lemma run_loop_append:
  "run_loop cfg t (xs @ ys) =
     (case run_loop cfg t xs of Inl c \<Rightarrow> Inl c | Inr t' \<Rightarrow> run_loop cfg t' ys)"
  by (induction xs arbitrary: t) (auto split: sum.splits)

lemma run_loop_append_history:
  assumes "has_minimum_candles (data_collector (state_of (run_loop cfg t xs))) m"
  shows "has_minimum_candles (data_collector (state_of (run_loop cfg t (xs @ ys)))) m"
proof (cases "run_loop cfg t xs")
  case (Inl c)
  then show ?thesis using assms by (simp add: run_loop_append)
next
  case (Inr t')
  then show ?thesis using assms run_loop_history_mono [of t' m cfg ys]
    by (simp add: run_loop_append)
qed

lemma after_iterations_history_mono:
  assumes "k \<le> n"
      and "has_minimum_candles (data_collector (after_iterations cfg d clock t0 tks k)) m"
  shows "has_minimum_candles (data_collector (after_iterations cfg d clock t0 tks n)) m"
proof -
  have "take n tks = take k tks @ take (n - k) (drop k tks)"
    using assms(1) take_add [of k "n - k" tks] by simp
  then show ?thesis
    using assms(2) run_loop_append_history
    by (simp add: after_iterations_def run_def)
qed

lemma evaluations_empty:
  "evaluations cs = [] \<longleftrightarrow> CalculateIndicators \<notin> set cs \<and> DetectSignal \<notin> set cs"
  by (auto simp: evaluations_def filter_empty_conv)

lemma init_trader_simps [simp]:
  "trading_enabled (init_trader d clock) = False"
  "discord (init_trader d clock) = d"
  "calls (init_trader d clock) = []"
  by (simp_all add: init_trader_def)

text \<open>
  C2 (as the code has it). In a run of the loop from the initial trader, trading is
  enabled after \<open>n\<close> iterations exactly when one of the iterations up to the \<open>n\<close>-th
  ended with at least \<open>min_candles_required\<close> candles in the history: the flag is set in
  the first such iteration and is never cleared. The call log holds one trading-enabled
  notice from that iteration on when a notifier is configured (\<open>d\<close>), and none at any time
  when no notifier is configured.
\<close>

theorem trading_enabled_once:
  "(trading_enabled (after_iterations cfg d clock t0 tks n) \<longleftrightarrow>
      (\<exists>k. 1 \<le> k \<and> k \<le> n \<and> k \<le> length tks \<and>
           has_minimum_candles (data_collector (after_iterations cfg d clock t0 tks k))
             (min_candles_required cfg))) \<and>
   enabled_notices (calls (after_iterations cfg d clock t0 tks n)) =
     (if d \<and> trading_enabled (after_iterations cfg d clock t0 tks n) then 1 else 0)"
proof
  let ?m = "min_candles_required cfg"
  let ?st = "after_iterations cfg d clock t0 tks"
  let ?t = "(init_trader d clock)\<lparr>data_collector := start_collection t0 init_collector\<rparr>"
  have en: "trading_enabled (?st j) \<longleftrightarrow>
              take j tks \<noteq> [] \<and> has_minimum_candles (data_collector (?st j)) ?m" for j
    using run_loop_enabled [of cfg ?t "take j tks"]
    by (simp add: after_iterations_def run_def)
  show "trading_enabled (?st n) \<longleftrightarrow>
      (\<exists>k. 1 \<le> k \<and> k \<le> n \<and> k \<le> length tks \<and> has_minimum_candles (data_collector (?st k)) ?m)"
  proof
    assume e: "trading_enabled (?st n)"
    then have ne: "take n tks \<noteq> []" and hm: "has_minimum_candles (data_collector (?st n)) ?m"
      using en [of n] by simp_all
    let ?k = "min n (length tks)"
    have "take ?k tks = take n tks" by (simp add: min_def)
    then have "?st ?k = ?st n" by (simp add: after_iterations_def)
    moreover have "1 \<le> ?k" using ne by (cases n; cases tks) simp_all
    ultimately show "\<exists>k. 1 \<le> k \<and> k \<le> n \<and> k \<le> length tks \<and>
        has_minimum_candles (data_collector (?st k)) ?m"
      using hm by (intro exI [of _ ?k]) simp
  next
    assume "\<exists>k. 1 \<le> k \<and> k \<le> n \<and> k \<le> length tks \<and>
        has_minimum_candles (data_collector (?st k)) ?m"
    then obtain k where k: "1 \<le> k" "k \<le> n" "k \<le> length tks"
        and hm: "has_minimum_candles (data_collector (?st k)) ?m" by blast
    have "has_minimum_candles (data_collector (?st n)) ?m"
      using after_iterations_history_mono [OF k(2) hm] .
    moreover have "take n tks \<noteq> []" using k by (cases n; cases tks) simp_all
    ultimately show "trading_enabled (?st n)" using en [of n] by simp
  qed
  show "enabled_notices (calls (?st n)) = (if d \<and> trading_enabled (?st n) then 1 else 0)"
    using run_loop_notices [of cfg ?t "take n tks"]
    by (simp add: after_iterations_def run_def)
qed
lemmas eval_defs = after_iterations_def run_def state_of_def iteration_def enable_trading_def
  on_new_candle_def send_status_update_def update_def start_collection_def init_collector_def
  init_trader_def has_minimum_candles_def get_dataframe_def sample_tick_def sample_config_def
  interval_def seeded_def min_lookback_def Let_def enabled_notices_def


theorem trading_enabled_once_counterexample:
  "trading_enabled (after_iterations (sample_config 1) False 0 0 (sample_ticks 3) 2) \<and>
   enabled_notices (calls (after_iterations (sample_config 1) False 0 0 (sample_ticks 3) 2)) = 0"
  by (simp add: eval_defs sample_ticks_def upt_rec)

theorem trading_enabled_once_witness:
  "\<not> trading_enabled (after_iterations (sample_config 1) True 0 0 (sample_ticks 3) 1) \<and>
   has_minimum_candles (data_collector (after_iterations (sample_config 1) True 0 0 (sample_ticks 3) 2))
     (min_candles_required (sample_config 1)) \<and>
   trading_enabled (after_iterations (sample_config 1) True 0 0 (sample_ticks 3) 3) \<and>
   enabled_notices (calls (after_iterations (sample_config 1) True 0 0 (sample_ticks 3) 3)) = 1"
proof -
  have n1: "\<not> trading_enabled (after_iterations (sample_config 1) True 0 0 (sample_ticks 3) 1)"
    by (simp add: eval_defs sample_ticks_def upt_rec)
  have h2: "has_minimum_candles
      (data_collector (after_iterations (sample_config 1) True 0 0 (sample_ticks 3) 2))
      (min_candles_required (sample_config 1))"
    by (simp add: eval_defs sample_ticks_def upt_rec)
  have "(1::nat) \<le> 2 \<and> (2::nat) \<le> 3 \<and> 2 \<le> length (sample_ticks 3)"
    by (simp add: sample_ticks_def)
  then have e3: "trading_enabled (after_iterations (sample_config 1) True 0 0 (sample_ticks 3) 3)"
    using trading_enabled_once [of "sample_config 1" True 0 0 "sample_ticks 3" 3] h2 by blast
  then have "enabled_notices
      (calls (after_iterations (sample_config 1) True 0 0 (sample_ticks 3) 3)) = 1"
    using trading_enabled_once [of "sample_config 1" True 0 0 "sample_ticks 3" 3] by simp
  then show ?thesis using n1 h2 e3 by simp
qed

text \<open>
  C6 (as the code has it). While the history holds fewer than \<open>min_candles_required\<close>
  candles, the call log of the run holds no call to the indicator calculator, none to the
  signal detector and no trading-enabled notice, whatever the quotes were. Once an
  iteration has ended with the required count, the log holds exactly one trading-enabled
  notice when a notifier is configured, and none when no notifier is configured.
\<close>

theorem no_evaluation_before_minimum:
  "(\<not> has_minimum_candles (data_collector (after_iterations cfg d clock t0 tks n))
        (min_candles_required cfg) \<longrightarrow>
      CalculateIndicators \<notin> set (calls (after_iterations cfg d clock t0 tks n)) \<and>
      DetectSignal \<notin> set (calls (after_iterations cfg d clock t0 tks n)) \<and>
      enabled_notices (calls (after_iterations cfg d clock t0 tks n)) = 0) \<and>
   (has_minimum_candles (data_collector (after_iterations cfg d clock t0 tks n))
        (min_candles_required cfg) \<and> 1 \<le> n \<and> tks \<noteq> [] \<longrightarrow>
      enabled_notices (calls (after_iterations cfg d clock t0 tks n)) = (if d then 1 else 0))"
proof (intro conjI impI)
  let ?m = "min_candles_required cfg"
  let ?st = "after_iterations cfg d clock t0 tks"
  let ?t = "(init_trader d clock)\<lparr>data_collector := start_collection t0 init_collector\<rparr>"
  have en: "trading_enabled (?st n) \<longleftrightarrow>
              take n tks \<noteq> [] \<and> has_minimum_candles (data_collector (?st n)) ?m"
    using run_loop_enabled [of cfg ?t "take n tks"]
    by (simp add: after_iterations_def run_def)
  have cnt: "enabled_notices (calls (?st n)) = (if d \<and> trading_enabled (?st n) then 1 else 0)"
    using run_loop_notices [of cfg ?t "take n tks"]
    by (simp add: after_iterations_def run_def)
  {
    assume "\<not> has_minimum_candles (data_collector (?st n)) ?m"
    then have ne: "\<not> trading_enabled (?st n)" using en by simp
    then have "evaluations (calls (?st n)) = []"
      using run_loop_evaluations [of cfg ?t "take n tks"]
      by (simp add: after_iterations_def run_def)
    then show "CalculateIndicators \<notin> set (calls (?st n))" "DetectSignal \<notin> set (calls (?st n))"
      by (simp_all add: evaluations_empty)
    show "enabled_notices (calls (?st n)) = 0" using cnt ne by simp
  }
  {
    assume "has_minimum_candles (data_collector (?st n)) ?m \<and> 1 \<le> n \<and> tks \<noteq> []"
    moreover from this have "take n tks \<noteq> []" by (cases n; cases tks) simp_all
    ultimately have "trading_enabled (?st n)" using en by simp
    then show "enabled_notices (calls (?st n)) = (if d then 1 else 0)" using cnt by simp
  }
qed

theorem no_evaluation_before_minimum_counterexample:
  "length (candles (data_collector
      (after_iterations (sample_config 10) False 0 0 (sample_ticks 11) 10))) = 9 \<and>
   length (candles (data_collector
      (after_iterations (sample_config 10) False 0 0 (sample_ticks 11) 11))) = 10 \<and>
   trading_enabled (after_iterations (sample_config 10) False 0 0 (sample_ticks 11) 11) \<and>
   calls (after_iterations (sample_config 10) False 0 0 (sample_ticks 11) 11) = []"
  by (simp add: eval_defs sample_ticks_def upt_rec)

theorem no_evaluation_before_minimum_witness:
  "\<not> has_minimum_candles (data_collector
       (after_iterations (sample_config 10) True 0 0 (sample_ticks 11) 10))
       (min_candles_required (sample_config 10)) \<and>
   CalculateIndicators \<notin> set (calls
       (after_iterations (sample_config 10) True 0 0 (sample_ticks 11) 10)) \<and>
   DetectSignal \<notin> set (calls
       (after_iterations (sample_config 10) True 0 0 (sample_ticks 11) 10)) \<and>
   enabled_notices (calls
       (after_iterations (sample_config 10) True 0 0 (sample_ticks 11) 10)) = 0 \<and>
   has_minimum_candles (data_collector
       (after_iterations (sample_config 10) True 0 0 (sample_ticks 11) 11))
       (min_candles_required (sample_config 10)) \<and>
   sample_ticks 11 \<noteq> [] \<and>
   enabled_notices (calls
       (after_iterations (sample_config 10) True 0 0 (sample_ticks 11) 11)) = 1"
proof -
  have a: "\<not> has_minimum_candles (data_collector
       (after_iterations (sample_config 10) True 0 0 (sample_ticks 11) 10))
       (min_candles_required (sample_config 10))"
    by (simp add: eval_defs sample_ticks_def upt_rec)
  have b: "has_minimum_candles (data_collector
       (after_iterations (sample_config 10) True 0 0 (sample_ticks 11) 11))
       (min_candles_required (sample_config 10))"
    by (simp add: eval_defs sample_ticks_def upt_rec)
  have c: "sample_ticks 11 \<noteq> []" by (simp add: sample_ticks_def upt_rec)
  show ?thesis
    using no_evaluation_before_minimum [of "sample_config 10" True 0 0 "sample_ticks 11" 10]
          no_evaluation_before_minimum [of "sample_config 10" True 0 0 "sample_ticks 11" 11]
          a b c
    by simp
qed

lemma on_new_candle_short:
  "length (candles (data_collector t)) < min_lookback \<Longrightarrow> on_new_candle tk t = t"
  by (simp add: on_new_candle_def get_dataframe_def)

lemma enable_trading_calls:
  "\<exists>new. calls (state_of (enable_trading cfg tk t)) = calls t @ new"
  by (simp add: enable_trading_def Let_def split: outcome.splits)

lemma send_status_update_calls:
  "\<exists>new. calls (send_status_update tk t) = calls t @ new"
  by (simp add: send_status_update_def Let_def split: outcome.splits)

lemma on_new_candle_calls:
  "\<exists>new. calls (on_new_candle tk t) = calls t @ new"
  by (simp add: on_new_candle_def Let_def split: option.splits outcome.splits detection.splits)

lemma after_gate_calls:
  "\<exists>new. calls (after_gate cfg tk b t) = calls t @ new"
  using on_new_candle_calls [of tk t] send_status_update_calls [of tk t]
        send_status_update_calls [of tk "on_new_candle tk t"]
  by (auto simp: after_gate_def Let_def)

lemma iteration_calls:
  "\<exists>new. calls (state_of (iteration cfg tk t)) = calls t @ new"
proof -
  let ?t1 = "t\<lparr>data_collector := snd (update (fetched tk) (fetched_at tk) (data_collector t))\<rparr>"
  obtain n1 where n1: "calls (state_of (enable_trading cfg tk ?t1)) = calls t @ n1"
    using enable_trading_calls [of cfg tk ?t1] by auto
  show ?thesis
  proof (cases "enable_trading cfg tk ?t1")
    case (Inl x)
    then show ?thesis using n1 by (simp add: iteration_alt)
  next
    case (Inr x)
    obtain n2 where "calls (after_gate cfg tk
        (fst (update (fetched tk) (fetched_at tk) (data_collector t))) x) = calls x @ n2"
      using after_gate_calls by blast
    then show ?thesis using n1 Inr by (simp add: iteration_alt)
  qed
qed

lemma after_gate_short:
  "length (candles (data_collector t)) < min_lookback \<Longrightarrow>
     evaluations (calls (after_gate cfg tk b t)) = evaluations (calls t)"
  by (simp add: after_gate_def Let_def on_new_candle_short send_status_update_frame)

lemma iteration_short:
  assumes "length (candles (snd (update (fetched tk) (fetched_at tk) (data_collector t))))
             < min_lookback"
  shows "evaluations (calls (state_of (iteration cfg tk t))) = evaluations (calls t)"
proof -
  let ?t1 = "t\<lparr>data_collector := snd (update (fetched tk) (fetched_at tk) (data_collector t))\<rparr>"
  have e: "evaluations (calls (state_of (enable_trading cfg tk ?t1))) = evaluations (calls t)"
    using enable_trading_frame(3) [of cfg tk ?t1] by simp
  show ?thesis
  proof (cases "enable_trading cfg tk ?t1")
    case (Inl x)
    then show ?thesis using e by (simp add: iteration_alt)
  next
    case (Inr x)
    have "data_collector x = data_collector ?t1"
      using enable_trading_frame(1) [of cfg tk ?t1] Inr by simp
    then have "length (candles (data_collector x)) < min_lookback" using assms by simp
    then show ?thesis using e Inr by (simp add: iteration_alt after_gate_short)
  qed
qed

text \<open>
  C7. An iteration whose history, after its \<^verbatim>\<open>update\<close>, is shorter than the minimum
  lookback (100) makes no call to the indicator calculator and none to the signal
  detector: what it adds to the call log holds neither. This holds in every state, so
  also when trading is enabled and the iteration completed a candle.
\<close>

theorem skip_below_lookback:
  "length (candles (snd (update (fetched tk) (fetched_at tk) (data_collector t)))) < min_lookback
     \<longrightarrow> (\<exists>new. calls (state_of (iteration cfg tk t)) = calls t @ new \<and>
                CalculateIndicators \<notin> set new \<and> DetectSignal \<notin> set new)"
proof
  assume a: "length (candles (snd (update (fetched tk) (fetched_at tk) (data_collector t))))
               < min_lookback"
  obtain new where new: "calls (state_of (iteration cfg tk t)) = calls t @ new"
    using iteration_calls by blast
  have "evaluations (calls (state_of (iteration cfg tk t))) = evaluations (calls t)"
    using a by (rule iteration_short)
  then have "evaluations new = []" by (simp add: new)
  then show "\<exists>new. calls (state_of (iteration cfg tk t)) = calls t @ new \<and>
                CalculateIndicators \<notin> set new \<and> DetectSignal \<notin> set new"
    using new by (auto simp: evaluations_empty)
qed

theorem skip_below_lookback_witness:
  "trading_enabled (sample_trader (ingest_all (start_collection 0 init_collector) (sample_window 0))) \<and>
   fst (update (fetched (sample_tick 90 300000000)) (fetched_at (sample_tick 90 300000000))
          (data_collector (sample_trader
             (ingest_all (start_collection 0 init_collector) (sample_window 0))))) \<and>
   length (candles (snd (update (fetched (sample_tick 90 300000000))
          (fetched_at (sample_tick 90 300000000))
          (data_collector (sample_trader
             (ingest_all (start_collection 0 init_collector) (sample_window 0))))))) = 1 \<and>
   CalculateIndicators \<notin> set (calls (state_of (iteration (sample_config 1)
      (sample_tick 90 300000000)
      (sample_trader (ingest_all (start_collection 0 init_collector) (sample_window 0)))))) \<and>
   DetectSignal \<notin> set (calls (state_of (iteration (sample_config 1)
      (sample_tick 90 300000000)
      (sample_trader (ingest_all (start_collection 0 init_collector) (sample_window 0))))))"
proof -
  let ?t = "sample_trader (ingest_all (start_collection 0 init_collector) (sample_window 0))"
  let ?tk = "sample_tick 90 300000000"
  have a: "trading_enabled ?t" by (simp add: sample_trader_def)
  have b: "fst (update (fetched ?tk) (fetched_at ?tk) (data_collector ?t)) \<and>
           length (candles (snd (update (fetched ?tk) (fetched_at ?tk) (data_collector ?t)))) = 1"
    by (simp add: sample_trader_def sample_tick_def sample_window_def update_def
          start_collection_def init_collector_def interval_def seeded_def Let_def)
  then have "length (candles (snd (update (fetched ?tk) (fetched_at ?tk) (data_collector ?t))))
               < min_lookback"
    by (simp add: min_lookback_def)
  then obtain new where "calls (state_of (iteration (sample_config 1) ?tk ?t)) = calls ?t @ new"
    "CalculateIndicators \<notin> set new" "DetectSignal \<notin> set new"
    using skip_below_lookback [of ?tk ?t "sample_config 1"] by blast
  moreover have "calls ?t = []" by (simp add: sample_trader_def)
  ultimately show ?thesis using a b by simp
qed

text \<open>
  C10. \<^verbatim>\<open>get_dataframe\<close> returns \<^verbatim>\<open>None\<close> exactly when the history is empty, and
  \<^verbatim>\<open>on_new_candle\<close> on an empty history returns at once: the trader, and so its call
  log, is unchanged.
\<close>

theorem empty_history_skips:
  "(get_dataframe c = None \<longleftrightarrow> candles c = []) \<and>
   (candles (data_collector t) = [] \<longrightarrow> on_new_candle tk t = t)"
  by (simp add: get_dataframe_def on_new_candle_def)

theorem empty_history_skips_witness:
  "candles (data_collector (sample_trader (start_collection 0 init_collector))) = [] \<and>
   get_dataframe (data_collector (sample_trader (start_collection 0 init_collector))) = None \<and>
   on_new_candle ((sample_tick 100 1)\<lparr>detection := Signal sample_signal\<rparr>)
     (sample_trader (start_collection 0 init_collector)) =
   sample_trader (start_collection 0 init_collector)"
proof -
  have "candles (data_collector (sample_trader (start_collection 0 init_collector))) = []"
    by (simp add: sample_trader_def start_collection_def init_collector_def)
  then show ?thesis
    using empty_history_skips [of "data_collector (sample_trader (start_collection 0 init_collector))"
            "sample_trader (start_collection 0 init_collector)"
            "(sample_tick 100 1)\<lparr>detection := Signal sample_signal\<rparr>"]
    by simp
qed

text \<open>The collector \<open>sample_history\<close> is the one a run reaches after a hundred and one
  quotes, five minutes apart.\<close>

lemma closed_windows_sample: "closed_windows (int k * interval) [sample_quote 100 1]
        (map (\<lambda>i. (Quote (sample_quote 100 1), int i * interval)) [Suc k..<Suc k + n]) =
      map (\<lambda>i. (int i * interval, [sample_quote 100 1])) [k..<k + n]"
proof (induction n arbitrary: k)
  case 0
  then show ?case by simp
next
  case (Suc n)
  have "[Suc k..<Suc k + Suc n] = Suc k # [Suc (Suc k)..<Suc (Suc k) + n]"
    by (simp add: upt_rec)
  moreover have "[k..<k + Suc n] = k # [Suc k..<Suc k + n]" by (simp add: upt_rec)
  ultimately show ?case using Suc [of "Suc k"] by (simp add: interval_def algebra_simps)
qed

lemma open_window_sample: "open_window (int k * interval) [sample_quote 100 1]
        (map (\<lambda>i. (Quote (sample_quote 100 1), int i * interval)) [Suc k..<Suc k + n]) =
      (int (k + n) * interval, [sample_quote 100 1])"
proof (induction n arbitrary: k)
  case 0
  then show ?case by simp
next
  case (Suc n)
  have "[Suc k..<Suc k + Suc n] = Suc k # [Suc (Suc k)..<Suc (Suc k) + n]"
    by (simp add: upt_rec)
  then show ?case using Suc [of "Suc k"] by (simp add: interval_def algebra_simps)
qed

lemma sample_history_reached:
  "sample_history =
     ingest_all (start_collection 0 init_collector)
       (map (\<lambda>i. (Quote (sample_quote 100 1), int i * interval)) [0..<101])"
proof -
  let ?ev = "\<lambda>i. (Quote (sample_quote 100 1), int i * interval)"
  have l: "[0..<101] = 0 # [Suc 0..<Suc 0 + 100]" by (simp add: upt_rec)
  have c: "closed_windows 0 [] (map ?ev [0..<101]) =
             map (\<lambda>i. (int i * interval, [sample_quote 100 1])) [0..<100]"
    unfolding l using closed_windows_sample [of 0 100] by (simp add: interval_def)
  have w: "open_window 0 [] (map ?ev [0..<101]) = (100 * interval, [sample_quote 100 1])"
    unfolding l using open_window_sample [of 0 100] by (simp add: interval_def)
  show ?thesis
    using ingest_all_refines [of "start_collection 0 init_collector" 0 "[]" "map ?ev [0..<101]"]
          start_collection_aggregate [of 0 init_collector]
    by (simp add: c w sample_history_def start_collection_def init_collector_def comp_def)
qed

text \<open>
  C5 (as the code has it). When \<^verbatim>\<open>on_new_candle\<close> detects a signal and a notifier is
  configured, it fetches the account and then sends the signal notice with the equity;
  both calls are in one \<^verbatim>\<open>try\<close>, so when the fetch fails the notice is not sent, and
  nothing else of the trader changes.
\<close>

theorem signal_notice_needs_equity:
  "get_dataframe (data_collector t) = Some df \<and> min_lookback \<le> length df \<and>
   indicators tk = Returns \<and> signal_detector t \<and> detection tk = Signal sg \<and> discord t \<longrightarrow>
     on_new_candle tk t =
       t\<lparr>calls := calls t @ [CalculateIndicators, DetectSignal, GetAccount] @
                   (case equity tk of None \<Rightarrow> [] | Some e \<Rightarrow> [SendSignal sg e])\<rparr>"
  by (auto simp: on_new_candle_def Let_def split: option.splits)

theorem signal_notice_needs_equity_counterexample:
  "detection ((sample_tick 100 1)\<lparr>detection := Signal sample_signal, equity := None\<rparr>) =
     Signal sample_signal \<and>
   discord (sample_trader sample_history) \<and>
   calls (on_new_candle ((sample_tick 100 1)\<lparr>detection := Signal sample_signal, equity := None\<rparr>)
            (sample_trader sample_history)) =
     [CalculateIndicators, DetectSignal, GetAccount]"
  by (simp add: on_new_candle_def get_dataframe_def sample_trader_def sample_history_def
        sample_tick_def min_lookback_def Let_def)

theorem signal_notice_needs_equity_witness:
  "get_dataframe (data_collector (sample_trader sample_history)) = Some (candles sample_history) \<and>
   length (candles sample_history) = 100 \<and>
   calls (on_new_candle ((sample_tick 100 1)\<lparr>detection := Signal sample_signal\<rparr>)
            (sample_trader sample_history)) =
     [CalculateIndicators, DetectSignal, GetAccount, SendSignal sample_signal 1000] \<and>
   calls (on_new_candle ((sample_tick 100 1)\<lparr>detection := Signal sample_signal, equity := None\<rparr>)
            (sample_trader sample_history)) =
     [CalculateIndicators, DetectSignal, GetAccount]"
proof -
  let ?t = "sample_trader sample_history"
  let ?tk = "(sample_tick 100 1)\<lparr>detection := Signal sample_signal\<rparr>"
  have l: "length (candles sample_history) = 100" by (simp add: sample_history_def)
  have g: "get_dataframe (data_collector ?t) = Some (candles sample_history)"
    using l by (auto simp: get_dataframe_def sample_trader_def)
  have h: "min_lookback \<le> length (candles sample_history)" by (simp add: l min_lookback_def)
  have p: "indicators ?tk = Returns \<and> signal_detector ?t \<and> detection ?tk = Signal sample_signal \<and>
           discord ?t \<and> equity ?tk = Some 1000 \<and> calls ?t = []"
    by (simp add: sample_tick_def sample_trader_def)
  have p': "indicators (?tk\<lparr>equity := None\<rparr>) = Returns \<and>
            detection (?tk\<lparr>equity := None\<rparr>) = Signal sample_signal \<and>
            equity (?tk\<lparr>equity := None\<rparr>) = None"
    by (simp add: sample_tick_def)
  show ?thesis
    using signal_notice_needs_equity [of ?t "candles sample_history" ?tk sample_signal]
          signal_notice_needs_equity [of ?t "candles sample_history" "?tk\<lparr>equity := None\<rparr>"
            sample_signal]
          g h p p' l
    by simp
qed

end
